theory Spec2Isabelle
  imports Main
begin

section \<open>The command dispatcher of lbq (index.ts)\<close>

text \<open>
  The theory embeds the classes \<open>Action\<close> and \<open>LBQ\<close> of the TypeScript source.
  JavaScript strings are modelled as \<^typ>\<open>string\<close> and are taken to be ASCII; the
  built-ins the source calls are modelled as follows:
  \<^item> \<open>String.prototype.match\<close> on a regular expression is the function carried by the
    regular-expression value (the match array, or nothing);
  \<^item> \<open>toLowerCase\<close> lowers the letters A to Z;
  \<^item> \<open>util.inspect\<close> and the conversion \<open>String(value)\<close> are parameters; the
    conversion returns the error it throws for a value without a primitive conversion.
  Objects are plain data objects and functions are plain functions: reading a property
  and \<open>run.toString()\<close> run no user code.
\<close>

subsection \<open>Values\<close>

datatype regexp = RegExp (re_source: string) (re_exec: "string \<Rightarrow> string list option")

text \<open>A function value; \<open>fn_text\<close> is what its \<open>toString()\<close> returns.\<close>

datatype func = Func (fn_text: string)

text \<open>
  The values \<open>register(...args: unknown[])\<close> inspects at run time. Numbers are integers
  or \<open>NaN\<close>; an object is the list of its properties.
\<close>

datatype jsval =
    JUndefined
  | JNull
  | JBool bool
  | JNum int
  | JNaN
  | JStr string
  | JRegExp regexp
  | JFun func
  | JArr "jsval list"
  | JObj "(string \<times> jsval) list"

text \<open>The type \<open>string | RegExp\<close> of one pattern.\<close>

datatype pat = Lit string | Re regexp

text \<open>The type \<open>string | RegExp | readonly (string | RegExp)[]\<close> of the field \<open>pattern\<close>.\<close>

datatype pattern_field = Single pat | Many "pat list"

type_synonym captures = "string list list"

record action =
  pattern :: pattern_field
  description :: string
  run :: func

datatype error = TypeError string | Error string

subsection \<open>Strings\<close>

definition lower_char :: "char \<Rightarrow> char" where
  "lower_char c =
     (case map_of (zip ''ABCDEFGHIJKLMNOPQRSTUVWXYZ'' ''abcdefghijklmnopqrstuvwxyz'') c of
        Some l \<Rightarrow> l
      | None \<Rightarrow> c)"

definition toLowerCase :: "string \<Rightarrow> string" where
  "toLowerCase s = map lower_char s"

text \<open>White space: tab, line feed, vertical tab, form feed, carriage return, blank.\<close>

definition is_space :: "char \<Rightarrow> bool" where
  "is_space c = (c \<in> set [CHR 0x09, CHR 0x0A, CHR 0x0B, CHR 0x0C, CHR 0x0D, CHR '' ''])"

text \<open>\<open>s.replace(/\s+/g, ' ')\<close>: every maximal run of white space becomes one blank.\<close>

function collapse_space :: "string \<Rightarrow> string" where
  "collapse_space [] = []"
| "collapse_space (c # cs) =
     (if is_space c then CHR '' '' # collapse_space (dropWhile is_space cs)
      else c # collapse_space cs)"
  by pat_completeness auto
termination
  by (relation "measure length") (auto simp: less_Suc_eq_le length_dropWhile_le)

definition trim :: "string \<Rightarrow> string" where
  "trim s = rev (dropWhile is_space (rev (dropWhile is_space s)))"

definition padEnd :: "string \<Rightarrow> nat \<Rightarrow> string" where
  "padEnd s n = s @ replicate (n - length s) CHR '' ''"

text \<open>\<open>words.join(' ')\<close>.\<close>

fun join_space :: "string list \<Rightarrow> string" where
  "join_space [] = []"
| "join_space [w] = w"
| "join_space (w # ws) = w @ CHR '' '' # join_space ws"

subsection \<open>Class Action\<close>

text \<open>The constructor: \<open>description || run.toString().replace(/\s+/g, ' ').trim()\<close>.\<close>

definition Action :: "pattern_field \<Rightarrow> func \<Rightarrow> string option \<Rightarrow> action" where
  "Action p r d =
     \<lparr>pattern = p,
      description =
        (case d of
           None \<Rightarrow> trim (collapse_space (fn_text r))
         | Some s \<Rightarrow> if s = [] then trim (collapse_space (fn_text r)) else s),
      run = r\<rparr>"

definition action_length :: "action \<Rightarrow> nat" where
  "action_length a = (case pattern a of Many ps \<Rightarrow> length ps | Single p \<Rightarrow> 1)"

definition label :: "(pat \<Rightarrow> string) \<Rightarrow> action \<Rightarrow> string" where
  "label inspect a =
     (case pattern a of
        Many ps \<Rightarrow> join_space (map inspect ps)
      | Single p \<Rightarrow> inspect p)"

text \<open>\<open>argv[i]\<close>, which is \<open>undefined\<close> beyond the end of the array.\<close>

definition argv_at :: "string list \<Rightarrow> nat \<Rightarrow> string option" where
  "argv_at argv i = (if i < length argv then Some (argv ! i) else None)"

text \<open>\<open>notMatch\<close> returns its boolean together with the array \<open>out\<close> it pushes to.\<close>

fun notMatch :: "string option \<Rightarrow> pat \<Rightarrow> captures \<Rightarrow> bool \<times> captures" where
  "notMatch None p out = (True, out)"
| "notMatch (Some input) (Lit s) out =
     (if toLowerCase input = toLowerCase s then (False, out @ [[input]]) else (True, out))"
| "notMatch (Some input) (Re r) out =
     (case re_exec r input of
        Some m \<Rightarrow> (False, out @ [m])
      | None \<Rightarrow> (True, out))"

text \<open>
  The loop of \<open>matches\<close> over \<open>this.pattern[i]\<close>, from position \<open>i\<close> on: nothing when
  some position does not match (\<open>return false\<close>), else the filled array \<open>out\<close>.
\<close>

fun matches_loop :: "pat list \<Rightarrow> nat \<Rightarrow> string list \<Rightarrow> captures \<Rightarrow> captures option" where
  "matches_loop [] i argv out = Some out"
| "matches_loop (p # ps) i argv out =
     (case notMatch (argv_at argv i) p out of
        (True, out') \<Rightarrow> None
      | (False, out') \<Rightarrow> matches_loop ps (Suc i) argv out')"

text \<open>
  \<open>matches(argv, result)\<close> returns its boolean and the content of the reference
  \<open>result\<close> afterwards; \<open>result.value\<close> is assigned on the last line only.
\<close>

definition matches :: "action \<Rightarrow> string list \<Rightarrow> captures option \<Rightarrow> bool \<times> captures option" where
  "matches a argv result =
     (if action_length a = 0 then (True, result)
      else
        (case pattern a of
           Many ps \<Rightarrow>
             (case matches_loop ps 0 argv [] of
                None \<Rightarrow> (False, result)
              | Some out \<Rightarrow> (True, Some out))
         | Single p \<Rightarrow>
             (case notMatch (argv_at argv 0) p [] of
                (True, out) \<Rightarrow> (False, result)
              | (False, out) \<Rightarrow> (True, Some out))))"

subsection \<open>Class LBQ: find\<close>

text \<open>The loop of \<open>find\<close> over the state \<open>(maxLength, found, actionArgs.value)\<close>.\<close>

fun find_loop ::
  "action list \<Rightarrow> string list \<Rightarrow> nat \<times> action option \<times> captures option \<Rightarrow>
   nat \<times> action option \<times> captures option" where
  "find_loop [] argv st = st"
| "find_loop (a # as) argv (maxLength, found, actionArgs) =
     (if found = None \<or> maxLength < action_length a then
        (case matches a argv actionArgs of
           (True, actionArgs') \<Rightarrow> find_loop as argv (action_length a, Some a, actionArgs')
         | (False, actionArgs') \<Rightarrow> find_loop as argv (maxLength, found, actionArgs'))
      else find_loop as argv (maxLength, found, actionArgs))"

definition find_lbq :: "action list \<Rightarrow> string list \<Rightarrow> (action \<times> captures \<times> string list) option" where
  "find_lbq actions argv =
     (case find_loop actions argv (0, None, None) of
        (maxLength, Some found, Some val) \<Rightarrow> Some (found, val, drop maxLength argv)
      | _ \<Rightarrow> None)"

subsection \<open>Class LBQ: register\<close>

text \<open>JavaScript's truthiness, as \<open>!first\<close> and \<open>obj && ...\<close> test it.\<close>

fun truthy :: "jsval \<Rightarrow> bool" where
  "truthy JUndefined = False"
| "truthy JNull = False"
| "truthy (JBool b) = b"
| "truthy (JNum n) = (n \<noteq> 0)"
| "truthy JNaN = False"
| "truthy (JStr s) = (s \<noteq> [])"
| "truthy (JRegExp r) = True"
| "truthy (JFun f) = True"
| "truthy (JArr xs) = True"
| "truthy (JObj kv) = True"

fun typeof_function :: "jsval \<Rightarrow> bool" where
  "typeof_function (JFun f) = True"
| "typeof_function v = False"

fun typeof_string :: "jsval \<Rightarrow> bool" where
  "typeof_string (JStr s) = True"
| "typeof_string v = False"

fun instanceof_RegExp :: "jsval \<Rightarrow> bool" where
  "instanceof_RegExp (JRegExp r) = True"
| "instanceof_RegExp v = False"

text \<open>
  A value that passes \<open>typeof v === 'string' || v instanceof RegExp\<close>, at the type
  \<open>string | RegExp\<close> the source then uses it at.
\<close>

fun as_pat :: "jsval \<Rightarrow> pat option" where
  "as_pat (JStr s) = Some (Lit s)"
| "as_pat (JRegExp r) = Some (Re r)"
| "as_pat v = None"

text \<open>
  The type guard \<open>isActionDefinition\<close>, returning the fields \<open>pattern\<close>, \<open>run\<close> and
  \<open>description\<close> of the definition it accepts (nothing when the guard is false). A
  missing property reads as \<open>undefined\<close>. Only plain objects carry the properties
  \<open>pattern\<close> and \<open>run\<close>: arrays, regular expressions and functions do not.
\<close>

definition property :: "(string \<times> jsval) list \<Rightarrow> string \<Rightarrow> jsval" where
  "property kv k = (case map_of kv k of None \<Rightarrow> JUndefined | Some v \<Rightarrow> v)"

fun def_pattern :: "jsval \<Rightarrow> pattern_field option" where
  "def_pattern (JStr s) = Some (Single (Lit s))"
| "def_pattern (JRegExp r) = Some (Single (Re r))"
| "def_pattern (JArr xs) =
     (if list_all (\<lambda>a. typeof_string a \<or> instanceof_RegExp a) xs
      then Some (Many (List.map_filter as_pat xs)) else None)"
| "def_pattern v = None"

fun isActionDefinition :: "jsval \<Rightarrow> (pattern_field \<times> func \<times> jsval) option" where
  "isActionDefinition (JObj kv) =
     (case (map_of kv ''pattern'', map_of kv ''run'') of
        (Some p, Some r) \<Rightarrow>
          (case (def_pattern p, r) of
             (Some ps, JFun f) \<Rightarrow> Some (ps, f, property kv ''description'')
           | _ \<Rightarrow> None)
      | _ \<Rightarrow> None)"
| "isActionDefinition v = None"

text \<open>
  The helper \<open>toString\<close> at the end of the source. \<open>String(value)\<close> is a parameter: it
  returns the string, or the error it throws (a TypeError for an object that has no
  primitive conversion, or whatever a conversion method of the object throws), and
  \<open>toString\<close> lets that error through.
\<close>

fun toString :: "(jsval \<Rightarrow> error + string) \<Rightarrow> jsval \<Rightarrow> error + string option" where
  "toString js_String (JStr s) = Inr (Some s)"
| "toString js_String JUndefined = Inr None"
| "toString js_String JNull = Inr None"
| "toString js_String v = (case js_String v of Inl e \<Rightarrow> Inl e | Inr s \<Rightarrow> Inr (Some s))"

text \<open>The loop of \<open>_getRunAndDescription\<close> over the state \<open>(run, description)\<close>.\<close>

fun getRunAndDescription_loop ::
  "jsval list \<Rightarrow> func option \<times> string option \<Rightarrow> func option \<times> string option" where
  "getRunAndDescription_loop [] st = st"
| "getRunAndDescription_loop (arg # rest) (run', description') =
     (case arg of
        JFun f \<Rightarrow> getRunAndDescription_loop rest (Some f, description')
      | JStr s \<Rightarrow> getRunAndDescription_loop rest (run', Some s)
      | _ \<Rightarrow> getRunAndDescription_loop rest (run', description'))"

definition getRunAndDescription :: "jsval list \<Rightarrow> nat \<Rightarrow> error + (func \<times> string option)" where
  "getRunAndDescription args start =
     (case getRunAndDescription_loop (drop start args) (None, None) of
        (None, description') \<Rightarrow> Inl (Error ''No action provided in register()'')
      | (Some run', description') \<Rightarrow> Inr (run', description'))"

text \<open>The scan \<open>for (; end < args.length; end++)\<close> of \<open>register\<close>, with its two breaks.\<close>

function scan_end :: "jsval list \<Rightarrow> nat \<Rightarrow> nat" where
  "scan_end args end' =
     (if end' < length args then
        (if typeof_function (args ! end') then end'
         else if \<not> typeof_string (args ! end') \<and> \<not> instanceof_RegExp (args ! end') then end'
         else scan_end args (Suc end'))
      else end')"
  by pat_completeness auto
termination
  by (relation "measure (\<lambda>(args, end'). length args - end')") auto

text \<open>
  \<open>register\<close> returns the error it throws, if any, and the array \<open>this.actions\<close>
  afterwards. \<open>arg0\<close> is \<open>args[0]\<close>, which is \<open>undefined\<close> when no argument is given.
  The arguments of \<open>new Action(...)\<close> are evaluated before the push, so an error thrown
  by \<open>toString(def.description)\<close> leaves the array as it was.
  The slice \<open>args.slice(0, end)\<close> holds strings and regular expressions only (the scan
  went past each of them), and is read at the type \<open>(string | RegExp)[]\<close> it is cast to.
\<close>

definition arg0 :: "jsval list \<Rightarrow> jsval" where
  "arg0 args = (case args of [] \<Rightarrow> JUndefined | x # xs \<Rightarrow> x)"

definition register ::
  "(jsval \<Rightarrow> error + string) \<Rightarrow> jsval list \<Rightarrow> action list \<Rightarrow>
   error option \<times> action list" where
  "register js_String args actions =
     (let first = arg0 args in
      if \<not> truthy first then
        (case getRunAndDescription args 0 of
           Inl e \<Rightarrow> (Some e, actions)
         | Inr (run', description') \<Rightarrow> (None, actions @ [Action (Many []) run' description']))
      else
        (case isActionDefinition first of
           Some (p, r, d) \<Rightarrow>
             (case toString js_String d of
                Inl e \<Rightarrow> (Some e, actions)
              | Inr description' \<Rightarrow> (None, actions @ [Action p r description']))
         | None \<Rightarrow>
             (case as_pat first of
                Some p \<Rightarrow>
                  (let end' = scan_end args 1;
                       patterns =
                         (if end' = 1 then Single p
                          else Many (List.map_filter as_pat (take end' args)))
                   in case getRunAndDescription args end' of
                        Inl e \<Rightarrow> (Some e, actions)
                      | Inr (run', description') \<Rightarrow>
                          (None, actions @ [Action patterns run' description']))
              | None \<Rightarrow> (Some (TypeError ''Invalid arguments in register()''), actions))))"

subsection \<open>Class LBQ: list\<close>

definition list_lbq :: "(pat \<Rightarrow> string) \<Rightarrow> action list \<Rightarrow> string list" where
  "list_lbq inspect actions =
     (let len = foldl (\<lambda>m a. max m (length (label inspect a))) 0 actions + 4;
          arr = map (\<lambda>a. (label inspect a, description a)) actions
      in map (\<lambda>(l, d). padEnd l len @ (if d = [] then [] else d)) arr)"

subsection \<open>What a rule does on its own\<close>

text \<open>
  The boolean of \<open>matches\<close> and the array it stores do not depend on the reference it
  is given; they are named here to state the theorems.
\<close>

definition rule_matches :: "action \<Rightarrow> string list \<Rightarrow> bool" where
  "rule_matches a argv = fst (matches a argv None)"

definition rule_captures :: "action \<Rightarrow> string list \<Rightarrow> captures option" where
  "rule_captures a argv = snd (matches a argv None)"

subsection \<open>Notions used to state the properties\<close>

text \<open>The callables and the strings of an argument list, in order, and the last of a list.\<close>

fun functions_of :: "jsval list \<Rightarrow> func list" where
  "functions_of [] = []"
| "functions_of (JFun f # vs) = f # functions_of vs"
| "functions_of (v # vs) = functions_of vs"

fun strings_of :: "jsval list \<Rightarrow> string list" where
  "strings_of [] = []"
| "strings_of (JStr s # vs) = s # strings_of vs"
| "strings_of (v # vs) = strings_of vs"

definition last_option :: "'a list \<Rightarrow> 'a option" where
  "last_option xs = (if xs = [] then None else Some (last xs))"

text \<open>A pattern as the argument value it is passed as.\<close>

fun pat_value :: "pat \<Rightarrow> jsval" where
  "pat_value (Lit s) = JStr s"
| "pat_value (Re r) = JRegExp r"

text \<open>
  The shapes the specification allows for a pattern-bearing argument: a string, a
  regular expression, or a sequence of those.
\<close>

definition supported_shape :: "jsval \<Rightarrow> bool" where
  "supported_shape v = (def_pattern v \<noteq> None)"

text \<open>
  The listing as the specification words it: the label padded on its left to the
  longest label width, followed by the description.
\<close>

definition padStart :: "string \<Rightarrow> nat \<Rightarrow> string" where
  "padStart s n = replicate (n - length s) CHR '' '' @ s"

definition longest_label :: "(pat \<Rightarrow> string) \<Rightarrow> action list \<Rightarrow> nat" where
  "longest_label inspect actions = Max (set (0 # map (\<lambda>a. length (label inspect a)) actions))"

definition list_spec :: "(pat \<Rightarrow> string) \<Rightarrow> action list \<Rightarrow> string list" where
  "list_spec inspect actions =
     map (\<lambda>a. padStart (label inspect a) (longest_label inspect actions) @ description a) actions"

subsection \<open>Example values\<close>

text \<open>Concrete handlers, patterns and rules, used to run the definitions on inputs.\<close>

definition run_one :: func where
  "run_one = Func ''() => 1''"

definition run_two :: func where
  "run_two = Func ''() => 2''"

text \<open>The regular expression \<open>/.+/\<close> on a token without line breaks.\<close>

definition re_any :: regexp where
  "re_any = RegExp ''.+'' (\<lambda>s. if s = [] then None else Some [s])"

definition rule_a :: action where
  "rule_a = Action (Single (Lit ''a'')) run_one None"

definition rule_ab :: action where
  "rule_ab = Action (Many [Lit ''a'', Lit ''b'']) run_two None"

definition rule_abc :: action where
  "rule_abc = Action (Many [Lit ''a'', Lit ''b'', Re re_any]) run_one (Some ''three'')"

definition rule_all :: action where
  "rule_all = Action (Many []) run_one None"

definition rule_all2 :: action where
  "rule_all2 = Action (Many []) run_two None"

text \<open>
  Stand-ins for \<open>String(value)\<close> and for \<open>util.inspect\<close>. The first throws for an
  object whose \<open>toString\<close> and \<open>valueOf\<close> are both present and not callable.
\<close>

definition js_String_stub :: "jsval \<Rightarrow> error + string" where
  "js_String_stub v =
     (case v of
        JObj kv \<Rightarrow>
          (case (map_of kv ''toString'', map_of kv ''valueOf'') of
             (Some t, Some u) \<Rightarrow>
               if \<not> typeof_function t \<and> \<not> typeof_function u
               then Inl (TypeError ''Cannot convert object to primitive value'')
               else Inr ''[object Object]''
           | _ \<Rightarrow> Inr ''[object Object]'')
      | _ \<Rightarrow> Inr ''[object Object]'')"

text \<open>
  A definition object whose description, \<open>{toString: 42, valueOf: 42}\<close>, has no
  primitive conversion, and one with a plain description.
\<close>

definition definition_bad_description :: jsval where
  "definition_bad_description =
     JObj [(''pattern'', JStr ''a''), (''run'', JFun run_one),
           (''description'', JObj [(''toString'', JNum 42), (''valueOf'', JNum 42)])]"

definition definition_ab :: jsval where
  "definition_ab =
     JObj [(''pattern'', JArr [JStr ''a'', JStr ''b'']), (''run'', JFun run_two)]"

definition inspect_stub :: "pat \<Rightarrow> string" where
  "inspect_stub p =
     (case p of
        Lit s \<Rightarrow> [CHR 0x27] @ s @ [CHR 0x27]
      | Re r \<Rightarrow> ''/'' @ re_source r @ ''/'')"

section \<open>Properties\<close>

subsection \<open>Matching one rule\<close>

lemma matches_eq:
  "matches a argv r =
     (rule_matches a argv,
      if rule_matches a argv \<and> 0 < action_length a then rule_captures a argv else r)"
proof (cases "pattern a")
  case (Single p)
  obtain b out where "notMatch (argv_at argv 0) p [] = (b, out)"
    by (cases "notMatch (argv_at argv 0) p []") auto
  with Single show ?thesis
    by (cases b) (simp_all add: matches_def rule_matches_def rule_captures_def action_length_def)
next
  case (Many ps)
  then show ?thesis
    by (cases "matches_loop ps 0 argv []"; cases "ps = []")
       (simp_all add: matches_def rule_matches_def rule_captures_def action_length_def)
qed

lemma rule_captures_Some:
  assumes "rule_matches a argv" and "0 < action_length a"
  shows "\<exists>c. rule_captures a argv = Some c"
proof (cases "pattern a")
  case (Single p)
  obtain b out where "notMatch (argv_at argv 0) p [] = (b, out)"
    by (cases "notMatch (argv_at argv 0) p []") auto
  with Single assms show ?thesis
    by (cases b) (simp_all add: matches_def rule_matches_def rule_captures_def action_length_def)
next
  case (Many ps)
  with assms show ?thesis
    by (cases "matches_loop ps 0 argv []"; cases "ps = []")
       (simp_all add: matches_def rule_matches_def rule_captures_def action_length_def)
qed

lemma rule_matches_zero: "action_length a = 0 \<Longrightarrow> rule_matches a argv"
  by (simp add: rule_matches_def matches_def)

lemma notMatch_absent: "notMatch None p out = (True, out)"
  by simp

lemma argv_at_beyond: "length argv \<le> i \<Longrightarrow> argv_at argv i = None"
  by (simp add: argv_at_def)

lemma matches_loop_length:
  "matches_loop ps i argv out = Some c \<Longrightarrow> ps = [] \<or> i + length ps \<le> length argv"
proof (induction ps arbitrary: i out)
  case Nil
  show ?case by simp
next
  case (Cons p ps)
  show ?case
  proof (cases "i < length argv")
    case True
    obtain b out' where nm: "notMatch (argv_at argv i) p out = (b, out')"
      by (cases "notMatch (argv_at argv i) p out") auto
    with Cons.prems have "matches_loop ps (Suc i) argv out' = Some c"
      by (cases b) simp_all
    from Cons.IH [OF this] True show ?thesis by auto
  next
    case False
    with Cons.prems show ?thesis
      by (simp add: argv_at_def)
  qed
qed

lemma rule_matches_length:
  assumes "rule_matches a argv"
  shows "action_length a \<le> length argv"
proof (cases "pattern a")
  case (Single p)
  show ?thesis
  proof (cases argv)
    case Nil
    with Single assms show ?thesis
      by (simp add: rule_matches_def matches_def action_length_def argv_at_def)
  next
    case (Cons t ts)
    with Single show ?thesis
      by (simp add: action_length_def)
  qed
next
  case (Many ps)
  show ?thesis
  proof (cases "ps = []")
    case True
    with Many show ?thesis
      by (simp add: action_length_def)
  next
    case False
    with Many assms obtain c where "matches_loop ps 0 argv [] = Some c"
      by (cases "matches_loop ps 0 argv []")
         (simp_all add: rule_matches_def matches_def action_length_def)
    from matches_loop_length [OF this] False Many show ?thesis
      by (simp add: action_length_def)
  qed
qed

subsection \<open>The loop of find\<close>

lemma find_loop_keep:
  "\<forall>a\<in>set as. rule_matches a argv \<longrightarrow> action_length a \<le> m \<Longrightarrow>
   find_loop as argv (m, Some r, v) = (m, Some r, v)"
  by (induction as) (auto simp: matches_eq split: bool.splits)

lemma find_loop_below:
  "\<forall>a\<in>set as. rule_matches a argv \<longrightarrow> action_length a < L \<Longrightarrow> m < L \<Longrightarrow>
   \<exists>m' f' v'. find_loop as argv (m, f, v) = (m', f', v') \<and> m' < L"
  by (induction as arbitrary: m f v) (auto simp: matches_eq split: bool.splits)

lemma find_loop_zero:
  "\<forall>a\<in>set as. rule_matches a argv \<longrightarrow> action_length a = 0 \<Longrightarrow>
   \<exists>m' f'. find_loop as argv (m, f, v) = (m', f', v)"
  by (induction as arbitrary: m f) (auto simp: matches_eq split: bool.splits)

lemma find_loop_append:
  "find_loop (xs @ ys) argv st = find_loop ys argv (find_loop xs argv st)"
proof (induction xs arbitrary: st)
  case Nil
  show ?case by simp
next
  case (Cons a as)
  obtain m f v where st: "st = (m, f, v)" by (cases st) auto
  show ?case unfolding st by (simp add: Cons split: prod.splits bool.splits)
qed

lemma find_loop_found:
  "find_loop as argv (m, f, v) = (m', Some r, v') \<Longrightarrow>
   (f = Some r \<and> m' = m) \<or> (r \<in> set as \<and> rule_matches r argv \<and> m' = action_length r)"
proof (induction as arbitrary: m f v)
  case Nil
  then show ?case by simp
next
  case (Cons a as)
  show ?case
  proof (cases "(f = None \<or> m < action_length a) \<and> rule_matches a argv")
    case True
    with Cons.prems have
      "find_loop as argv (action_length a, Some a,
         if rule_matches a argv \<and> 0 < action_length a then rule_captures a argv else v) =
       (m', Some r, v')"
      by (auto simp: matches_eq)
    from Cons.IH [OF this] True show ?thesis by auto
  next
    case False
    with Cons.prems have "find_loop as argv (m, f, v) = (m', Some r, v')"
      by (auto simp: matches_eq split: if_splits)
    from Cons.IH [OF this] show ?thesis by auto
  qed
qed

text \<open>What \<open>find\<close> returns is a registered rule that matches, with the tokens after it.\<close>

lemma find_lbq_sound:
  assumes "find_lbq actions argv = Some (r, c, rest)"
  shows "r \<in> set actions \<and> rule_matches r argv \<and> rest = drop (action_length r) argv"
proof -
  obtain m f v where fl: "find_loop actions argv (0, None, None) = (m, f, v)"
    by (cases "find_loop actions argv (0, None, None)") auto
  with assms have "f = Some r" and "rest = drop m argv"
    by (auto simp: find_lbq_def split: option.splits)
  with fl find_loop_found [of actions argv 0 None None m r v] show ?thesis
    by auto
qed

text \<open>
  The rule \<open>find\<close> returns: the first of the longest matching rules, when that one has at
  least one pattern.
\<close>

lemma find_lbq_first_longest:
  assumes pre: "\<forall>a\<in>set pre. rule_matches a argv \<longrightarrow> action_length a < action_length r"
    and r: "rule_matches r argv" "0 < action_length r"
    and post: "\<forall>a\<in>set post. rule_matches a argv \<longrightarrow> action_length a \<le> action_length r"
  shows "\<exists>c. rule_captures r argv = Some c \<and>
    find_lbq (pre @ r # post) argv = Some (r, c, drop (action_length r) argv)"
proof -
  obtain c where c: "rule_captures r argv = Some c"
    using rule_captures_Some [OF r] by blast
  obtain m f v where fl: "find_loop pre argv (0, None, None) = (m, f, v)" and m: "m < action_length r"
    using find_loop_below [OF pre r(2), of None None] by blast
  have "find_loop (r # post) argv (m, f, v) = find_loop post argv (action_length r, Some r, Some c)"
    using r m c by (simp add: matches_eq)
  also have "\<dots> = (action_length r, Some r, Some c)"
    using find_loop_keep [OF post] .
  finally have "find_loop (pre @ r # post) argv (0, None, None) = (action_length r, Some r, Some c)"
    by (simp add: find_loop_append fl)
  then show ?thesis
    using c by (simp add: find_lbq_def)
qed

text \<open>When every matching rule has no pattern, \<open>actionArgs.value\<close> stays \<open>null\<close>.\<close>

lemma find_lbq_zero_only:
  assumes "\<forall>a\<in>set actions. rule_matches a argv \<longrightarrow> action_length a = 0"
  shows "find_lbq actions argv = None"
proof -
  obtain m f where "find_loop actions argv (0, None, None) = (m, f, None)"
    using find_loop_zero [OF assms, of 0 None None] by blast
  then show ?thesis
    by (simp add: find_lbq_def split: option.splits)
qed

subsection \<open>Properties of find\<close>

lemmas eval_defs =
  find_lbq_def matches_def rule_matches_def rule_captures_def action_length_def Action_def
  argv_at_def toLowerCase_def lower_char_def trim_def is_space_def

text \<open>
  C1. A rule without patterns that is the longest match should be returned with no
  captures and the whole argv as leftover. The code loses it: \<open>matches\<close> returns true
  for such a rule without assigning \<open>result.value\<close>, and \<open>find\<close> returns a rule only
  when that value is set. Here the registry holds the single rule that
  \<open>register('', run)\<close> builds, the rule matches the argv \<open>['x']\<close>, and \<open>find\<close> returns
  nothing.
\<close>

theorem find_loses_zero_length_rule:
  "register js_String_stub [JStr '''', JFun run_one] [] = (None, [rule_all])
   \<and> action_length rule_all = 0
   \<and> matches rule_all [''x''] None = (True, None)
   \<and> find_lbq [rule_all] [''x''] = None"
  by (simp add: rule_all_def run_one_def eval_defs register_def getRunAndDescription_def arg0_def)

text \<open>
  C3 as stated fails: a registry may hold a third matching rule that is longer than both.
  With rules of lengths 1, 2 and 3 that all match \<open>['a', 'b', 'c']\<close>, taking the
  length-2 rule for L1 and the length-1 rule for L2, \<open>find\<close> returns the length-3 rule.
\<close>

theorem find_longer_third_rule_counterexample:
  "rule_ab \<in> set [rule_a, rule_ab, rule_abc]
   \<and> rule_a \<in> set [rule_a, rule_ab, rule_abc]
   \<and> rule_matches rule_ab [''a'', ''b'', ''c'']
   \<and> rule_matches rule_a [''a'', ''b'', ''c'']
   \<and> action_length rule_a < action_length rule_ab
   \<and> find_lbq [rule_a, rule_ab, rule_abc] [''a'', ''b'', ''c'']
       = Some (rule_abc, [[''a''], [''b''], [''c'']], [])
   \<and> action_length rule_abc \<noteq> action_length rule_ab"
  by (simp add: rule_a_def rule_ab_def rule_abc_def run_one_def run_two_def re_any_def eval_defs)

text \<open>
  C3, amended. Let a registry contain a rule \<open>r1\<close> and a rule \<open>r2\<close> that both match the
  argv, \<open>r1\<close> longer than \<open>r2\<close>, and let no matching rule of the registry be longer
  than \<open>r1\<close>. Then \<open>find\<close> returns a matching rule of the length of \<open>r1\<close>, with its
  captures and the tokens after that length; it is \<open>r1\<close> itself when no other matching
  rule has that length. Nothing is assumed on the order of registration.
\<close>

theorem find_longest_beats_shorter:
  assumes "r1 \<in> set actions" and "r2 \<in> set actions"
    and "rule_matches r1 argv" and "rule_matches r2 argv"
    and "action_length r2 < action_length r1"
    and longest: "\<forall>a\<in>set actions. rule_matches a argv \<longrightarrow> action_length a \<le> action_length r1"
  shows "\<exists>r c. find_lbq actions argv = Some (r, c, drop (action_length r1) argv)
    \<and> rule_captures r argv = Some c
    \<and> r \<in> set actions \<and> rule_matches r argv \<and> action_length r = action_length r1
    \<and> ((\<forall>a\<in>set actions. rule_matches a argv \<and> action_length a = action_length r1 \<longrightarrow> a = r1)
          \<longrightarrow> r = r1)"
proof -
  let ?P = "\<lambda>a. rule_matches a argv \<and> action_length a = action_length r1"
  have "\<exists>a\<in>set actions. ?P a"
    using assms(1,3) by blast
  then obtain pre r post where split: "actions = pre @ r # post" and r: "?P r"
    and first: "\<forall>a\<in>set pre. \<not> ?P a"
    using split_list_first_prop [of actions ?P] by blast
  have pre: "\<forall>a\<in>set pre. rule_matches a argv \<longrightarrow> action_length a < action_length r"
  proof (intro ballI impI)
    fix a assume a: "a \<in> set pre" "rule_matches a argv"
    with longest split have "action_length a \<le> action_length r1" by simp
    moreover from first a have "action_length a \<noteq> action_length r1" by blast
    ultimately show "action_length a < action_length r" using r by simp
  qed
  have post: "\<forall>a\<in>set post. rule_matches a argv \<longrightarrow> action_length a \<le> action_length r"
    using longest split r by simp
  have pos: "0 < action_length r"
    using r assms(5) by simp
  obtain c where "rule_captures r argv = Some c"
    and "find_lbq (pre @ r # post) argv = Some (r, c, drop (action_length r) argv)"
    using find_lbq_first_longest [OF pre _ pos post] r by blast
  with r split show ?thesis
    by auto
qed

theorem find_longest_beats_shorter_witness:
  "rule_matches rule_abc [''a'', ''b'', ''c'']
   \<and> rule_matches rule_ab [''a'', ''b'', ''c'']
   \<and> action_length rule_ab < action_length rule_abc
   \<and> find_lbq [rule_a, rule_abc, rule_ab] [''a'', ''b'', ''c'']
     = Some (rule_abc, [[''a''], [''b''], [''c'']], [])
   \<and> find_lbq [rule_abc, rule_ab, rule_a] [''a'', ''b'', ''c'']
     = Some (rule_abc, [[''a''], [''b''], [''c'']], [])"
proof -
  let ?argv = "[''a'', ''b'', ''c'']"
  have m1: "rule_matches rule_abc ?argv" and m2: "rule_matches rule_ab ?argv"
    and m3: "rule_matches rule_a ?argv"
    by (simp_all add: rule_a_def rule_ab_def rule_abc_def run_one_def run_two_def re_any_def eval_defs)
  have len: "action_length rule_abc = 3" "action_length rule_ab = 2" "action_length rule_a = 1"
    by (simp_all add: rule_a_def rule_ab_def rule_abc_def run_one_def run_two_def re_any_def eval_defs)
  have c: "rule_captures rule_abc ?argv = Some [[''a''], [''b''], [''c'']]"
    by (simp add: rule_a_def rule_ab_def rule_abc_def run_one_def run_two_def re_any_def eval_defs)
  have ne: "rule_ab \<noteq> rule_abc" "rule_a \<noteq> rule_abc"
    by (simp_all add: rule_a_def rule_ab_def rule_abc_def run_one_def run_two_def re_any_def eval_defs)
  have "\<exists>r c. find_lbq [rule_a, rule_abc, rule_ab] ?argv
        = Some (r, c, drop (action_length rule_abc) ?argv) \<and> rule_captures r ?argv = Some c
      \<and> r \<in> set [rule_a, rule_abc, rule_ab] \<and> rule_matches r ?argv
      \<and> action_length r = action_length rule_abc
      \<and> ((\<forall>a\<in>set [rule_a, rule_abc, rule_ab].
             rule_matches a ?argv \<and> action_length a = action_length rule_abc \<longrightarrow> a = rule_abc)
           \<longrightarrow> r = rule_abc)"
    by (rule find_longest_beats_shorter [where ?r2.0 = rule_ab]) (simp_all add: m1 m2 m3 len)
  then have one: "find_lbq [rule_a, rule_abc, rule_ab] ?argv = Some (rule_abc, [[''a''], [''b''], [''c'']], [])"
    using c len by auto
  have "\<exists>r c. find_lbq [rule_abc, rule_ab, rule_a] ?argv
        = Some (r, c, drop (action_length rule_abc) ?argv) \<and> rule_captures r ?argv = Some c
      \<and> r \<in> set [rule_abc, rule_ab, rule_a] \<and> rule_matches r ?argv
      \<and> action_length r = action_length rule_abc
      \<and> ((\<forall>a\<in>set [rule_abc, rule_ab, rule_a].
             rule_matches a ?argv \<and> action_length a = action_length rule_abc \<longrightarrow> a = rule_abc)
           \<longrightarrow> r = rule_abc)"
    by (rule find_longest_beats_shorter [where ?r2.0 = rule_ab]) (simp_all add: m1 m2 m3 len)
  then have two: "find_lbq [rule_abc, rule_ab, rule_a] ?argv = Some (rule_abc, [[''a''], [''b''], [''c'']], [])"
    using c len by auto
  from one two m1 m2 len show ?thesis by simp
qed

text \<open>
  C4. Among several matching rules of the same, longest length the first registered
  should be returned. When that length is 0 the code returns nothing, by the defect of
  C1: two rules without patterns are registered, both match the empty argv, and \<open>find\<close>
  returns no rule instead of the first.
\<close>

theorem find_loses_tied_zero_length_rules:
  "register js_String_stub [JStr '''', JFun run_two]
     (snd (register js_String_stub [JStr '''', JFun run_one] [])) = (None, [rule_all, rule_all2])
   \<and> rule_matches rule_all [] \<and> rule_matches rule_all2 []
   \<and> action_length rule_all = action_length rule_all2
   \<and> find_lbq [rule_all, rule_all2] [] = None"
  by (simp add: rule_all_def rule_all2_def run_one_def run_two_def eval_defs register_def getRunAndDescription_def arg0_def)

text \<open>
  C7. A position beyond the end of argv never matches, a rule with more patterns than
  argv has tokens does not match, and \<open>find\<close> never returns such a rule.
\<close>

theorem find_never_selects_longer_rule:
  assumes "length argv < action_length a"
  shows "(\<forall>i p out. length argv \<le> i \<longrightarrow> notMatch (argv_at argv i) p out = (True, out))
    \<and> fst (matches a argv result) = False
    \<and> (\<forall>actions c rest. find_lbq actions argv \<noteq> Some (a, c, rest))"
proof (intro conjI allI impI)
  fix i p out
  assume "length argv \<le> i"
  then show "notMatch (argv_at argv i) p out = (True, out)"
    by (simp add: argv_at_def)
next
  have "\<not> rule_matches a argv"
    using rule_matches_length [of a argv] assms by auto
  then show "fst (matches a argv result) = False"
    by (simp add: matches_eq)
next
  fix actions c rest
  show "find_lbq actions argv \<noteq> Some (a, c, rest)"
  proof
    assume "find_lbq actions argv = Some (a, c, rest)"
    from find_lbq_sound [OF this] have "rule_matches a argv" by simp
    from rule_matches_length [OF this] assms show False by simp
  qed
qed

theorem find_never_selects_longer_rule_witness:
  "length [''a''] < action_length rule_ab
   \<and> notMatch (argv_at [''a''] 1) (Lit ''b'') [[''a'']] = (True, [[''a'']])
   \<and> fst (matches rule_ab [''a''] None) = False
   \<and> find_lbq [rule_ab, rule_a] [''a''] \<noteq> Some (rule_ab, [[''a'']], [])"
proof -
  have h: "length [''a''] < action_length rule_ab"
    by (simp add: rule_ab_def run_two_def eval_defs)
  from find_never_selects_longer_rule [OF h, of None] h show ?thesis
    by simp
qed

subsection \<open>The scans of register\<close>

lemma as_pat_None_iff:
  "as_pat v = None \<longleftrightarrow> typeof_function v \<or> (\<not> typeof_string v \<and> \<not> instanceof_RegExp v)"
  by (cases v) simp_all

lemma as_pat_pat_value [simp]: "as_pat (pat_value p) = Some p"
  by (cases p) simp_all

lemma as_pat_Some: "as_pat v = Some p \<Longrightarrow> v = pat_value p"
  by (cases v) auto

lemma isActionDefinition_pat_value [simp]: "isActionDefinition (pat_value p) = None"
  by (cases p) simp_all

lemma map_filter_pat_value [simp]: "List.map_filter as_pat (map pat_value ps) = ps"
  by (induction ps) (simp_all add: List.map_filter_simps)

lemma functions_of_append: "functions_of (xs @ ys) = functions_of xs @ functions_of ys"
  by (induction xs rule: functions_of.induct) simp_all

lemma strings_of_append: "strings_of (xs @ ys) = strings_of xs @ strings_of ys"
  by (induction xs rule: strings_of.induct) simp_all

lemma functions_of_pat_values [simp]: "functions_of (map pat_value ps) = []"
proof (induction ps)
  case Nil
  show ?case by simp
next
  case (Cons p ps)
  then show ?case by (cases p) simp_all
qed

text \<open>The loop of \<open>_getRunAndDescription\<close> keeps the last callable and the last string.\<close>

lemma getRunAndDescription_loop_eq:
  "getRunAndDescription_loop vs (r, d) =
     (case last_option (functions_of vs) of None \<Rightarrow> r | Some f \<Rightarrow> Some f,
      case last_option (strings_of vs) of None \<Rightarrow> d | Some s \<Rightarrow> Some s)"
proof (induction vs arbitrary: r d)
  case Nil
  show ?case by (simp add: last_option_def)
next
  case (Cons v vs)
  show ?case
    by (cases v) (simp_all add: Cons last_option_def)
qed

lemma getRunAndDescription_eq:
  "getRunAndDescription args start =
     (case last_option (functions_of (drop start args)) of
        None \<Rightarrow> Inl (Error ''No action provided in register()'')
      | Some f \<Rightarrow> Inr (f, last_option (strings_of (drop start args))))"
  by (simp add: getRunAndDescription_def getRunAndDescription_loop_eq split: option.splits)

declare scan_end.simps [simp del]

lemma scan_end_pats:
  assumes "rest = [] \<or> as_pat (hd rest) = None"
  shows "i \<le> length ps \<Longrightarrow> scan_end (map pat_value ps @ rest) i = length ps"
proof (induction "length ps - i" arbitrary: i)
  case 0
  then have i: "i = length ps" by simp
  show ?case
  proof (cases rest)
    case Nil
    then show ?thesis using i by (subst scan_end.simps) simp
  next
    case (Cons v vs)
    with assms have "as_pat v = None" by simp
    then have "typeof_function v \<or> (\<not> typeof_string v \<and> \<not> instanceof_RegExp v)"
      by (simp add: as_pat_None_iff)
    then show ?thesis using i Cons
      by (subst scan_end.simps) (auto simp: nth_append)
  qed
next
  case (Suc n)
  then have i: "i < length ps" by simp
  have "as_pat (pat_value (ps ! i)) \<noteq> None" by simp
  then have v: "\<not> typeof_function (pat_value (ps ! i))"
    "typeof_string (pat_value (ps ! i)) \<or> instanceof_RegExp (pat_value (ps ! i))"
    unfolding as_pat_None_iff by auto
  have "scan_end (map pat_value ps @ rest) i = scan_end (map pat_value ps @ rest) (Suc i)"
    using i v by (subst scan_end.simps) (auto simp: nth_append)
  also have "\<dots> = length ps"
    using Suc i by (intro Suc.hyps(1)) simp_all
  finally show ?case .
qed

text \<open>Every argument list is its leading patterns followed by a rest that starts with none.\<close>

lemma leading_patterns:
  "\<exists>ps rest. args = map pat_value ps @ rest \<and> (rest = [] \<or> as_pat (hd rest) = None)"
proof (induction args)
  case Nil
  show ?case by simp
next
  case (Cons v vs)
  then obtain ps rest where vs: "vs = map pat_value ps @ rest"
    and rest: "rest = [] \<or> as_pat (hd rest) = None" by blast
  show ?case
  proof (cases "as_pat v")
    case None
    have "v # vs = map pat_value [] @ (v # vs) \<and> (v # vs = [] \<or> as_pat (hd (v # vs)) = None)"
      using None by simp
    then show ?thesis by blast
  next
    case (Some p)
    then have "v # vs = map pat_value (p # ps) @ rest"
      using vs as_pat_Some by simp
    with rest show ?thesis by blast
  qed
qed

text \<open>The call with leading patterns, the first of them truthy.\<close>

lemma register_patterns:
  assumes "ps \<noteq> []" and "truthy (pat_value (hd ps))"
    and "rest = [] \<or> as_pat (hd rest) = None"
  shows "register js_String (map pat_value ps @ rest) actions =
    (case last_option (functions_of rest) of
       None \<Rightarrow> (Some (Error ''No action provided in register()''), actions)
     | Some f \<Rightarrow>
         (None, actions @
            [Action (if length ps = 1 then Single (hd ps) else Many ps) f
               (last_option (strings_of rest))]))"
proof -
  obtain p qs where ps: "ps = p # qs"
    using assms(1) by (cases ps) auto
  have first: "arg0 (map pat_value ps @ rest) = pat_value p"
    by (simp add: ps arg0_def)
  have scan: "scan_end (map pat_value ps @ rest) 1 = length ps"
    using scan_end_pats [OF assms(3), of 1 ps] ps by simp
  show ?thesis
    unfolding register_def Let_def first scan getRunAndDescription_eq
    using assms(2) by (simp add: ps split: option.splits)
qed

lemma register_falsy:
  assumes "\<not> truthy (arg0 args)"
  shows "register js_String args actions =
    (case last_option (functions_of args) of
       None \<Rightarrow> (Some (Error ''No action provided in register()''), actions)
     | Some f \<Rightarrow> (None, actions @ [Action (Many []) f (last_option (strings_of args))]))"
  using assms by (simp add: register_def getRunAndDescription_eq split: option.splits)

lemma register_other:
  assumes "truthy (arg0 args)" and "as_pat (arg0 args) = None"
  shows "register js_String args actions =
    (case isActionDefinition (arg0 args) of
       None \<Rightarrow> (Some (TypeError ''Invalid arguments in register()''), actions)
     | Some (p, r, d) \<Rightarrow>
         (case toString js_String d of
            Inl e \<Rightarrow> (Some e, actions)
          | Inr description' \<Rightarrow> (None, actions @ [Action p r description'])))"
  using assms by (simp add: register_def split: option.splits)

text \<open>
  \<open>toString\<close> never throws for a string, \<open>undefined\<close> or \<open>null\<close>, and throws what
  \<open>String(value)\<close> throws for any other value.
\<close>

lemma toString_plain:
  "typeof_string d \<or> d = JUndefined \<or> d = JNull \<Longrightarrow> \<exists>s. toString js_String d = Inr s"
  by (cases d) simp_all

lemma toString_other:
  "\<not> (typeof_string d \<or> d = JUndefined \<or> d = JNull) \<Longrightarrow>
   toString js_String d = (case js_String d of Inl e \<Rightarrow> Inl e | Inr s \<Rightarrow> Inr (Some s))"
  by (cases d) simp_all

lemma last_option_None [simp]: "last_option xs = None \<longleftrightarrow> xs = []"
  by (simp add: last_option_def)

subsection \<open>Properties of register\<close>

text \<open>
  C2 as stated fails: a call whose first argument is the handler, with or without a
  description after it, throws the TypeError \<open>Invalid arguments in register()\<close>. A
  function is truthy, is no definition object and is neither a string nor a regular
  expression, so the call reaches the last branch of \<open>register\<close>.
\<close>

theorem register_callable_first_counterexample:
  "register js_String_stub [JFun run_one] [] =
     (Some (TypeError ''Invalid arguments in register()''), [])
   \<and> register js_String_stub [JFun run_one, JStr ''all''] [] =
     (Some (TypeError ''Invalid arguments in register()''), [])"
  by (simp add: register_def arg0_def)

text \<open>
  C2, amended. Every call of \<open>register\<close> whose first argument is a callable throws the
  TypeError for invalid arguments and leaves the registry as it was. A rule with zero
  patterns is registered by every call whose first argument is falsy (\<open>undefined\<close> or
  absent, \<open>null\<close>, \<open>false\<close>, 0, \<open>NaN\<close> or the empty string) and that has a callable
  among its arguments: its handler is the last callable and its description argument the
  last string. With a falsy first argument and no callable the call throws
  \<open>No action provided in register()\<close>.
\<close>

theorem register_callable_first_throws:
  "register js_String (JFun f # rest) actions =
     (Some (TypeError ''Invalid arguments in register()''), actions)
   \<and> (\<not> truthy v) = (v \<in> set [JUndefined, JNull, JBool False, JNum 0, JNaN, JStr []])
   \<and> arg0 [] = JUndefined
   \<and> (\<not> truthy (arg0 args) \<and> functions_of args \<noteq> [] \<longrightarrow>
        register js_String args actions =
          (None, actions @
             [Action (Many []) (last (functions_of args)) (last_option (strings_of args))]))
   \<and> (\<not> truthy (arg0 args) \<and> functions_of args = [] \<longrightarrow>
        register js_String args actions =
          (Some (Error ''No action provided in register()''), actions))"
proof (intro conjI impI)
  show "register js_String (JFun f # rest) actions =
     (Some (TypeError ''Invalid arguments in register()''), actions)"
    by (simp add: register_def arg0_def)
  show "(\<not> truthy v) = (v \<in> set [JUndefined, JNull, JBool False, JNum 0, JNaN, JStr []])"
    by (cases v) auto
  show "arg0 [] = JUndefined"
    by (simp add: arg0_def)
next
  assume "\<not> truthy (arg0 args) \<and> functions_of args \<noteq> []"
  then show "register js_String args actions =
      (None, actions @
         [Action (Many []) (last (functions_of args)) (last_option (strings_of args))])"
    by (simp add: register_falsy last_option_def)
next
  assume "\<not> truthy (arg0 args) \<and> functions_of args = []"
  then show "register js_String args actions =
      (Some (Error ''No action provided in register()''), actions)"
    by (simp add: register_falsy last_option_def)
qed

theorem register_callable_first_throws_witness:
  "\<not> truthy (arg0 [JNull, JFun run_one])
   \<and> register js_String_stub [JNull, JFun run_one] [] =
       (None, [Action (Many []) run_one None])
   \<and> register js_String_stub [JBool False, JFun run_one, JStr ''all'', JFun run_two] [rule_a] =
       (None, [rule_a, Action (Many []) run_two (Some ''all'')])
   \<and> register js_String_stub [JNum 0, JStr ''all''] [rule_a] =
       (Some (Error ''No action provided in register()''), [rule_a])"
  using
    register_callable_first_throws [of js_String_stub run_one "[]" "[]" JNull
      "[JNull, JFun run_one]"]
    register_callable_first_throws [of js_String_stub run_one "[]" "[rule_a]" JNull
      "[JBool False, JFun run_one, JStr ''all'', JFun run_two]"]
    register_callable_first_throws [of js_String_stub run_one "[]" "[rule_a]" JNull
      "[JNum 0, JStr ''all'']"]
  by (simp add: arg0_def last_option_def)

text \<open>
  C5. For a literal pattern \<open>P\<close> and a present token \<open>T\<close>, \<open>notMatch\<close> reports a match
  (returns false) exactly when \<open>P.toLowerCase()\<close> equals \<open>T.toLowerCase()\<close>, and then
  pushes the one-element array \<open>[T]\<close>, the token as given; otherwise \<open>out\<close> is unchanged.
\<close>

theorem notMatch_literal:
  "notMatch (Some T) (Lit P) out =
     (if toLowerCase P = toLowerCase T then (False, out @ [[T]]) else (True, out))"
  by auto

theorem notMatch_literal_witness:
  "notMatch (Some ''HeLLo'') (Lit ''hello'') [] = (False, [[''HeLLo'']])
   \<and> notMatch (Some ''help'') (Lit ''hello'') [] = (True, [])"
  using notMatch_literal [of "''HeLLo''" "''hello''" "[]"]
    notMatch_literal [of "''help''" "''hello''" "[]"]
  by (simp add: toLowerCase_def lower_char_def)

text \<open>
  C6 as stated fails: the handler is not the first callable. The scan of the patterns
  stops at the first callable, but \<open>_getRunAndDescription\<close> then keeps the last callable
  it meets, as it keeps the last string: \<open>register('a', f, g)\<close> registers \<open>g\<close>.
\<close>

theorem register_first_callable_counterexample:
  "register js_String_stub [JStr ''a'', JFun run_one, JFun run_two] [] =
     (None, [Action (Single (Lit ''a'')) run_two None])
   \<and> run (Action (Single (Lit ''a'')) run_two None) = run_two
   \<and> run_two \<noteq> run_one"
  using register_patterns [of "[Lit ''a'']" "[JFun run_one, JFun run_two]" js_String_stub "[]"]
  by (simp add: last_option_def Action_def run_one_def run_two_def)

text \<open>
  C6, amended. Let the arguments be one or more strings and regular expressions, the
  first of them truthy (not the empty string), followed by a rest that is empty or starts
  with an argument that is neither (a callable, or any other value). Then the leading
  arguments are the pattern of the rule (the single pattern itself when there is one, the
  sequence otherwise), the handler is the last callable of the rest, and the description
  is the last string of the rest, or the handler's normalised source text when the rest
  has no string or its last string is empty. When the rest has no callable the call
  throws \<open>No action provided in register()\<close> and registers nothing.
\<close>

theorem register_pattern_scan:
  assumes "ps \<noteq> []" and "truthy (pat_value (hd ps))"
    and "rest = [] \<or> as_pat (hd rest) = None"
  shows "(functions_of rest = [] \<longrightarrow>
      register js_String (map pat_value ps @ rest) actions =
        (Some (Error ''No action provided in register()''), actions))
    \<and> (functions_of rest \<noteq> [] \<longrightarrow>
      (\<exists>a. register js_String (map pat_value ps @ rest) actions = (None, actions @ [a])
        \<and> pattern a = (if length ps = 1 then Single (hd ps) else Many ps)
        \<and> run a = last (functions_of rest)
        \<and> description a =
            (if strings_of rest = [] \<or> last (strings_of rest) = []
             then trim (collapse_space (fn_text (last (functions_of rest))))
             else last (strings_of rest))))"
  using register_patterns [OF assms, of js_String actions]
  by (auto simp: last_option_def Action_def split: option.splits)

theorem register_pattern_scan_witness:
  "[Lit ''hello'', Re re_any] \<noteq> []
   \<and> truthy (pat_value (hd [Lit ''hello'', Re re_any]))
   \<and> (\<exists>a. register js_String_stub
          [JStr ''hello'', JRegExp re_any, JFun run_one, JStr ''first'', JStr ''second''] [] =
          (None, [a])
        \<and> pattern a = Many [Lit ''hello'', Re re_any]
        \<and> run a = run_one
        \<and> description a = ''second'')"
  using register_pattern_scan [of "[Lit ''hello'', Re re_any]"
      "[JFun run_one, JStr ''first'', JStr ''second'']" js_String_stub "[]"]
  by simp

text \<open>
  C8 as stated fails in both directions. \<open>register(['a'], run)\<close> has a callable handler
  and a pattern argument of a supported shape (a sequence of strings), and throws; and
  \<open>register('a', 42, run)\<close> has the unsupported argument 42 where a pattern is
  expected, and does not throw: the scan stops at 42, which is then ignored.
\<close>

theorem register_throws_counterexample:
  "typeof_function (JFun run_one)
   \<and> supported_shape (JArr [JStr ''a''])
   \<and> register js_String_stub [JArr [JStr ''a''], JFun run_one] [] =
       (Some (TypeError ''Invalid arguments in register()''), [])
   \<and> \<not> supported_shape (JNum 42)
   \<and> register js_String_stub [JStr ''a'', JNum 42, JFun run_one] [] =
       (None, [Action (Single (Lit ''a'')) run_one None])"
proof -
  have "register js_String_stub [JStr ''a'', JNum 42, JFun run_one] [] =
       (None, [Action (Single (Lit ''a'')) run_one None])"
    using register_patterns [of "[Lit ''a'']" "[JNum 42, JFun run_one]" js_String_stub "[]"]
    by (simp add: last_option_def)
  then show ?thesis
    by (simp add: supported_shape_def register_def arg0_def)
qed

text \<open>
  C8, amended. On plain arguments (no getters, no proxies, no overridden
  \<open>toString\<close> of a function) \<open>register\<close> throws in exactly three cases, and then
  leaves the registry unchanged: when the first argument is falsy, or is a string or a regular expression,
  and no argument is callable (\<open>No action provided in register()\<close>); when the first
  argument is truthy and is neither a string, nor a regular expression, nor a definition
  object with a well-shaped \<open>pattern\<close> and a callable \<open>run\<close>
  (\<open>Invalid arguments in register()\<close>); and when the first argument is such a definition
  object whose \<open>description\<close> is neither a string, nor \<open>undefined\<close>, nor \<open>null\<close>, and
  \<open>String(description)\<close> throws (the error is the one that conversion throws). Every
  other call appends exactly one rule.
\<close>

theorem register_throws_exactly_when:
  "fst (register js_String args actions) =
     (if \<not> truthy (arg0 args) \<or> as_pat (arg0 args) \<noteq> None then
        (if functions_of args = [] then Some (Error ''No action provided in register()'')
         else None)
      else
        (case isActionDefinition (arg0 args) of
           None \<Rightarrow> Some (TypeError ''Invalid arguments in register()'')
         | Some (p, r, d) \<Rightarrow>
             (if typeof_string d \<or> d = JUndefined \<or> d = JNull then None
              else case js_String d of Inl e \<Rightarrow> Some e | Inr s \<Rightarrow> None)))
   \<and> (fst (register js_String args actions) \<noteq> None \<longrightarrow>
        snd (register js_String args actions) = actions)
   \<and> (fst (register js_String args actions) = None \<longrightarrow>
        (\<exists>a. snd (register js_String args actions) = actions @ [a]))"
proof (cases "truthy (arg0 args)")
  case False
  then show ?thesis
    by (cases "functions_of args = []") (simp_all add: register_falsy last_option_def)
next
  case True
  show ?thesis
  proof (cases "as_pat (arg0 args)")
    case None
    show ?thesis
    proof (cases "isActionDefinition (arg0 args)")
      case no_def: None
      with True None show ?thesis
        by (simp add: register_other)
    next
      case (Some t)
      obtain p r d where t: "t = (p, r, d)"
        by (cases t) auto
      have reg: "register js_String args actions =
        (case toString js_String d of
           Inl e \<Rightarrow> (Some e, actions)
         | Inr description' \<Rightarrow> (None, actions @ [Action p r description']))"
        using True None Some t by (simp add: register_other)
      show ?thesis
      proof (cases "typeof_string d \<or> d = JUndefined \<or> d = JNull")
        case plain: True
        then obtain s where "toString js_String d = Inr s"
          using toString_plain by blast
        with plain True None Some t show ?thesis
          by (simp add: reg)
      next
        case other: False
        with True None Some t show ?thesis
          by (cases "js_String d") (simp_all add: reg toString_other)
      qed
    qed
  next
    case (Some p)
    obtain ps rest where args: "args = map pat_value ps @ rest"
      and rest: "rest = [] \<or> as_pat (hd rest) = None"
      using leading_patterns by blast
    have ne: "ps \<noteq> []"
    proof
      assume "ps = []"
      with args rest Some True show False
        by (cases rest) (simp_all add: arg0_def)
    qed
    then have first: "arg0 args = pat_value (hd ps)"
      by (cases ps) (simp_all add: args arg0_def)
    have funs: "functions_of args = functions_of rest"
      by (simp add: args functions_of_append)
    have reg: "register js_String args actions =
      (case last_option (functions_of rest) of
         None \<Rightarrow> (Some (Error ''No action provided in register()''), actions)
       | Some f \<Rightarrow>
           (None, actions @
              [Action (if length ps = 1 then Single (hd ps) else Many ps) f
                 (last_option (strings_of rest))]))"
      unfolding args using register_patterns [OF ne _ rest] True first by simp
    show ?thesis
      using Some True
      by (cases "functions_of rest = []") (simp_all add: reg funs last_option_def)
  qed
qed

theorem register_throws_exactly_when_witness:
  "fst (register js_String_stub [JStr ''a''] [rule_a]) =
       Some (Error ''No action provided in register()'')
   \<and> snd (register js_String_stub [JStr ''a''] [rule_a]) = [rule_a]
   \<and> fst (register js_String_stub [JNum 42, JFun run_one] [rule_a]) =
       Some (TypeError ''Invalid arguments in register()'')
   \<and> snd (register js_String_stub [JNum 42, JFun run_one] [rule_a]) = [rule_a]
   \<and> fst (register js_String_stub [definition_bad_description] [rule_a]) =
       Some (TypeError ''Cannot convert object to primitive value'')
   \<and> snd (register js_String_stub [definition_bad_description] [rule_a]) = [rule_a]
   \<and> fst (register js_String_stub [definition_ab] [rule_a]) = None
   \<and> (\<exists>a. snd (register js_String_stub [definition_ab] [rule_a]) = [rule_a] @ [a])
   \<and> fst (register js_String_stub [JStr ''a'', JFun run_one] [rule_a]) = None
   \<and> (\<exists>a. snd (register js_String_stub [JStr ''a'', JFun run_one] [rule_a]) = [rule_a] @ [a])"
  using register_throws_exactly_when [of js_String_stub "[JStr ''a'']" "[rule_a]"]
    register_throws_exactly_when [of js_String_stub "[JNum 42, JFun run_one]" "[rule_a]"]
    register_throws_exactly_when [of js_String_stub "[definition_bad_description]" "[rule_a]"]
    register_throws_exactly_when [of js_String_stub "[definition_ab]" "[rule_a]"]
    register_throws_exactly_when [of js_String_stub "[JStr ''a'', JFun run_one]" "[rule_a]"]
  by (simp add: arg0_def definition_bad_description_def definition_ab_def js_String_stub_def
      property_def)

text \<open>
  C10. A call whose first argument is the empty string takes the branch \<open>!first\<close>:
  when some argument is callable it registers a rule with zero patterns, which is not the
  rule whose single pattern is the empty literal, has length 0 and is accepted by
  \<open>matches\<close> on every argv; with no callable it throws.
\<close>

theorem register_empty_string_first:
  "register js_String (JStr [] # rest) actions =
     (case last_option (functions_of rest) of
        None \<Rightarrow> (Some (Error ''No action provided in register()''), actions)
      | Some f \<Rightarrow>
          (None, actions @
             [Action (Many []) f (last_option (strings_of (JStr [] # rest)))]))
   \<and> pattern (Action (Many []) f d) \<noteq> Single (Lit [])
   \<and> action_length (Action (Many []) f d) = 0
   \<and> matches (Action (Many []) f d) argv result = (True, result)"
  by (simp add: register_falsy arg0_def Action_def action_length_def matches_def)

theorem register_empty_string_first_witness:
  "register js_String_stub [JStr '''', JFun run_one] [] = (None, [rule_all])
   \<and> pattern rule_all = Many []"
  using register_empty_string_first [of js_String_stub "[JFun run_one]" "[]"]
  by (simp add: last_option_def rule_all_def Action_def)

subsection \<open>Properties of list\<close>

lemma foldl_max_fold: "foldl (\<lambda>m a. max m (f a)) (n::nat) xs = fold max (map f xs) n"
  by (induction xs arbitrary: n) (simp_all add: max.commute)

lemma foldl_max_longest_label:
  "foldl (\<lambda>m a. max m (length (label inspect a))) 0 actions = longest_label inspect actions"
  unfolding longest_label_def Max.set_eq_fold foldl_max_fold ..

lemma label_le_longest:
  assumes "a \<in> set actions"
  shows "length (label inspect a) \<le> longest_label inspect actions"
  unfolding longest_label_def using assms by (intro Max_ge) auto

text \<open>
  C9 as stated fails: the label is not padded on its left, and not to the longest label
  width. \<open>list\<close> pads the label at its end (\<open>padEnd\<close>) to the longest width plus 4,
  so that at least four blanks separate every label from its description.
\<close>

theorem list_lbq_left_padded_counterexample:
  "list_lbq inspect_stub [rule_a, rule_abc] =
     [label inspect_stub rule_a @ replicate 13 CHR '' '' @ description rule_a,
      label inspect_stub rule_abc @ replicate 4 CHR '' '' @ ''three'']
   \<and> list_spec inspect_stub [rule_a, rule_abc] =
     [replicate 9 CHR '' '' @ label inspect_stub rule_a @ description rule_a,
      label inspect_stub rule_abc @ ''three'']
   \<and> list_lbq inspect_stub [rule_a, rule_abc] \<noteq> list_spec inspect_stub [rule_a, rule_abc]"
  by (simp add: list_lbq_def list_spec_def longest_label_def padEnd_def padStart_def label_def
      inspect_stub_def rule_a_def rule_abc_def run_one_def re_any_def Action_def trim_def is_space_def eval_nat_numeral)

text \<open>
  C9, amended. \<open>list\<close> returns one line per rule, in registration order: the label of
  the rule, then blanks up to the longest label width of the registry plus 4, then the
  description of the rule. No label is longer than that width.
\<close>

theorem list_lbq_lines:
  "list_lbq inspect actions =
     map (\<lambda>a. label inspect a
            @ replicate (longest_label inspect actions + 4 - length (label inspect a)) CHR '' ''
            @ description a) actions
   \<and> (\<forall>a\<in>set actions.
        length (label inspect a) + 4 \<le> longest_label inspect actions + 4)"
  using label_le_longest [of _ actions inspect]
  by (simp add: list_lbq_def foldl_max_longest_label padEnd_def comp_def)

theorem list_lbq_lines_witness:
  "list_lbq inspect_stub [rule_a, rule_abc] =
     [label inspect_stub rule_a @ replicate 13 CHR '' '' @ description rule_a,
      label inspect_stub rule_abc @ replicate 4 CHR '' '' @ description rule_abc]
   \<and> length (label inspect_stub rule_a) + 4 \<le> longest_label inspect_stub [rule_a, rule_abc] + 4"
proof -
  have w: "longest_label inspect_stub [rule_a, rule_abc] = 12"
    "length (label inspect_stub rule_a) = 3" "length (label inspect_stub rule_abc) = 12"
    by (simp_all add: longest_label_def label_def inspect_stub_def rule_a_def rule_abc_def run_one_def re_any_def Action_def)
  show ?thesis
    using list_lbq_lines [of inspect_stub "[rule_a, rule_abc]"] by (simp add: w eval_nat_numeral)
qed

end
